theory Spec2Isabelle
  imports Main "HOL-Library.AList"
begin

section \<open>Python strings\<close>

text \<open>
  A Python \<open>str\<close> is modelled as a \<open>string\<close>; a character stands for the code point
  of the same number (U+0000 to U+00FF).  The operations below are the methods of
  \<open>str\<close> that \<open>release.py\<close> calls, with the behaviour of CPython.
\<close>

definition LF :: char where
  "LF = CHR 0x0A"

definition CR :: char where
  "CR = CHR 0x0D"

text \<open>\<open>s.startswith(p)\<close> and \<open>s.endswith(p)\<close>.\<close>

definition startswith :: "string \<Rightarrow> string \<Rightarrow> bool" where
  "startswith s p = (take (length p) s = p)"

definition endswith :: "string \<Rightarrow> string \<Rightarrow> bool" where
  "endswith s p = (length p \<le> length s \<and> drop (length s - length p) s = p)"

text \<open>\<open>e in s\<close>: \<open>e\<close> occurs in \<open>s\<close> as a substring.\<close>

fun str_contains :: "string \<Rightarrow> string \<Rightarrow> bool" where
  "str_contains [] e = (e = [])"
| "str_contains (c # cs) e = (startswith (c # cs) e \<or> str_contains cs e)"

text \<open>
  \<open>s.replace(old, new)\<close>: one pass from the left over non-overlapping occurrences.
  With an empty \<open>old\<close>, Python puts \<open>new\<close> before every character and at the end.
\<close>

fun replace_from :: "string \<Rightarrow> string \<Rightarrow> string \<Rightarrow> string" where
  "replace_from [] old new = []"
| "replace_from (c # cs) old new =
     (if old \<noteq> [] \<and> startswith (c # cs) old
      then new @ replace_from (drop (length old) (c # cs)) old new
      else c # replace_from cs old new)"

definition str_replace :: "string \<Rightarrow> string \<Rightarrow> string \<Rightarrow> string" where
  "str_replace s old new =
     (if old = [] then new @ concat (map (\<lambda>c. c # new) s) else replace_from s old new)"

text \<open>
  \<open>str.isspace\<close> on one character, for the code points below U+0100: the ASCII
  white space, the separators U+001C to U+001F, U+0085 and U+00A0.
\<close>

definition isspace :: "char \<Rightarrow> bool" where
  "isspace c = (c \<in> set [CHR 0x09, CHR 0x0A, CHR 0x0B, CHR 0x0C, CHR 0x0D,
                          CHR 0x1C, CHR 0x1D, CHR 0x1E, CHR 0x1F, CHR 0x20,
                          CHR 0x85, CHR 0xA0])"

text \<open>\<open>s.strip()\<close>, and \<open>s.rstrip(chars)\<close> with an explicit character set.\<close>

definition strip :: "string \<Rightarrow> string" where
  "strip s = rev (dropWhile isspace (rev (dropWhile isspace s)))"

definition rstrip :: "string \<Rightarrow> string \<Rightarrow> string" where
  "rstrip s chars = rev (dropWhile (\<lambda>c. c \<in> set chars) (rev s))"

text \<open>
  The line boundaries of \<open>str.splitlines\<close> (below U+0100): LF, CR, CR LF, VT, FF,
  FS, GS, RS and NEL.
\<close>

definition is_linebreak :: "char \<Rightarrow> bool" where
  "is_linebreak c = (c \<in> set [CHR 0x0A, CHR 0x0D, CHR 0x0B, CHR 0x0C,
                               CHR 0x1C, CHR 0x1D, CHR 0x1E, CHR 0x85])"

text \<open>
  \<open>s.splitlines(keepends=True)\<close>.  The first argument is the line read so far; a
  last line without a terminator is returned as it is, and an empty remainder yields
  no line.
\<close>

fun splitlines_from :: "string \<Rightarrow> string \<Rightarrow> string list" where
  "splitlines_from cur [] = (if cur = [] then [] else [cur])"
| "splitlines_from cur [c] = [cur @ [c]]"
| "splitlines_from cur (c # d # cs) =
     (if c = CR \<and> d = LF then (cur @ [c, d]) # splitlines_from [] cs
      else if is_linebreak c then (cur @ [c]) # splitlines_from [] (d # cs)
      else splitlines_from (cur @ [c]) (d # cs))"

definition splitlines_keepends :: "string \<Rightarrow> string list" where
  "splitlines_keepends s = splitlines_from [] s"

text \<open>\<open>sep.join(xs)\<close>.\<close>

fun str_join :: "string \<Rightarrow> string list \<Rightarrow> string" where
  "str_join sep [] = []"
| "str_join sep [x] = x"
| "str_join sep (x # y # ys) = x @ sep @ str_join sep (y # ys)"

text \<open>
  Reading a file opened in text mode with the default \<open>newline=None\<close>
  (\<open>Path.open(encoding="utf-8")\<close>): universal newlines, every CR LF and every lone
  CR of the file arrives as one LF.
\<close>

fun universal_newlines :: "string \<Rightarrow> string" where
  "universal_newlines [] = []"
| "universal_newlines [c] = (if c = CR then [LF] else [c])"
| "universal_newlines (c # d # cs) =
     (if c = CR \<and> d = LF then LF # universal_newlines cs
      else if c = CR then LF # universal_newlines (d # cs)
      else c # universal_newlines (d # cs))"

section \<open>Paths\<close>

text \<open>
  \<open>pathlib\<close> paths in their POSIX flavour: an anchor (empty, \<open>/\<close> or \<open>//\<close>) and the
  components.  \<open>Path(s)\<close> drops empty and \<open>.\<close> components and keeps \<open>..\<close>.
\<close>

datatype pure_path = PurePath (anchor: string) (parts: "string list")

fun split_on :: "char \<Rightarrow> string \<Rightarrow> string list" where
  "split_on sep [] = [[]]"
| "split_on sep (c # cs) =
     (if c = sep then [] # split_on sep cs
      else (case split_on sep cs of
              [] \<Rightarrow> [[c]]
            | r # rs \<Rightarrow> (c # r) # rs))"

definition path_anchor :: "string \<Rightarrow> string" where
  "path_anchor s =
     (let n = length (takeWhile (\<lambda>c. c = CHR ''/'') s)
      in if n = 0 then [] else if n = 2 then ''//'' else ''/'')"

definition Path :: "string \<Rightarrow> pure_path" where
  "Path s = PurePath (path_anchor s)
              (filter (\<lambda>p. p \<noteq> [] \<and> p \<noteq> ''.'') (split_on (CHR ''/'') s))"

text \<open>\<open>p / q\<close>: an anchored right operand replaces the left one.\<close>

definition path_join :: "pure_path \<Rightarrow> pure_path \<Rightarrow> pure_path" where
  "path_join p q = (if anchor q \<noteq> [] then q else PurePath (anchor p) (parts p @ parts q))"

text \<open>\<open>str(p)\<close> and \<open>p.as_posix()\<close>, which agree in the POSIX flavour.\<close>

definition path_str :: "pure_path \<Rightarrow> string" where
  "path_str p =
     (if anchor p = [] \<and> parts p = [] then ''.'' else anchor p @ str_join ''/'' (parts p))"

definition as_posix :: "pure_path \<Rightarrow> string" where
  "as_posix p = path_str p"

definition path_parent :: "pure_path \<Rightarrow> pure_path" where
  "path_parent p = (if parts p = [] then p else PurePath (anchor p) (butlast (parts p)))"

text \<open>
  \<open>os.path.join(a, b)\<close> on strings, as \<open>os.walk\<close> builds the path of a
  subdirectory: \<open>b\<close> is the name of a directory entry, which holds no slash, so the
  branch of \<open>join\<close> for an absolute second argument is never taken.
\<close>

definition os_path_join :: "string \<Rightarrow> string \<Rightarrow> string" where
  "os_path_join a b = (if a = [] \<or> endswith a ''/'' then a @ b else a @ ''/'' @ b)"

section \<open>Data of the release script\<close>

text \<open>The typed dictionary \<open>PluginMetadata\<close>.\<close>

record PluginMetadata =
  plugin_package_name :: string
  files_to_package :: "string list"
  dirs_to_package :: "string list"
  translation_dir :: string
  excluded_dirs :: "string list"
  excluded_extensions :: "string list"
  name :: string
  version :: string
  changelog :: string
  description :: string
  qgis_minimum_version :: string
  author :: string
  email :: string
  url_base :: string

text \<open>
  The exceptions that travel through the script: its own \<open>ReleaseScriptError\<close>, the
  \<open>OSError\<close> family of the file system, each with its message.
\<close>

datatype exn = ReleaseScriptError string | OSError string

text \<open>
  An \<open>xml.etree.ElementTree.Element\<close>: tag, attribute dictionary (in insertion order),
  text, tail and children.  An \<open>ElementTree\<close> is its root element.
\<close>

datatype element =
  Element (tag: string) (attrib: "(string \<times> string) list")
          (etext: "string option") (etail: "string option") (children: "element list")

definition set_children :: "element \<Rightarrow> element list \<Rightarrow> element" where
  "set_children e cs = Element (tag e) (attrib e) (etext e) (etail e) cs"

definition set_text :: "element \<Rightarrow> string \<Rightarrow> element" where
  "set_text e v = Element (tag e) (attrib e) (Some v) (etail e) (children e)"

text \<open>\<open>e.get(k)\<close> and \<open>e.set(k, v)\<close> on the attribute dictionary.\<close>

definition elem_get :: "element \<Rightarrow> string \<Rightarrow> string option" where
  "elem_get e k = map_of (attrib e) k"

definition elem_set :: "element \<Rightarrow> string \<Rightarrow> string \<Rightarrow> element" where
  "elem_set e k v =
     Element (tag e) (AList.update k v (attrib e)) (etext e) (etail e) (children e)"

text \<open>
  \<open>SubElement(parent, tag, **attrs)\<close> appends a new element to the parent's children;
  the new child is the last one.
\<close>

definition SubElement :: "element \<Rightarrow> string \<Rightarrow> (string \<times> string) list \<Rightarrow> element" where
  "SubElement parent t attrs =
     set_children parent (children parent @ [Element t attrs None None []])"

text \<open>
  The position of the first element of a list that satisfies a test.  A Python
  reference to a child element is modelled by the child's position in its parent.
\<close>

fun find_index :: "('a \<Rightarrow> bool) \<Rightarrow> 'a list \<Rightarrow> nat option" where
  "find_index P [] = None"
| "find_index P (x # xs) =
     (if P x then Some 0 else map_option Suc (find_index P xs))"

text \<open>\<open>parent.find(t)\<close> for a plain tag name: the first direct child with that tag.\<close>

definition elem_find :: "element \<Rightarrow> string \<Rightarrow> nat option" where
  "elem_find parent t = find_index (\<lambda>c. tag c = t) (children parent)"

text \<open>
  The libraries and the environment the script runs in, as parameters: the URL
  functions of \<open>urllib\<close>, the XML parser and serialiser, \<open>configparser\<close>, the
  \<open>lrelease\<close> tool, the random names \<open>tempfile.mkstemp\<close> tries in turn, and the
  operating-system failures that can hit a directory creation, the serialisation to
  the temporary file (with the content the failed write leaves behind) and the rename.
\<close>

record ParseResult =
  scheme :: string
  netloc :: string
  path :: string

datatype node = File string | Dir "(string \<times> node) list"

record env =
  urlparse :: "string \<Rightarrow> ParseResult"
  unquote :: "string \<Rightarrow> string"
  url2pathname :: "string \<Rightarrow> string"
  xml_parse :: "string \<Rightarrow> element option"
  xml_serialize :: "element \<Rightarrow> string"
  parse_config :: "string \<Rightarrow> exn + PluginMetadata"
  run_lrelease :: "string \<Rightarrow> node \<Rightarrow> exn + node"
  tmp_names :: "string list"
  mkdir_fault :: "string option"
  write_fault :: "(string \<times> string) option"
  replace_fault :: "string option"

section \<open>The manifest document\<close>

text \<open>
  \<open>_find_or_create_plugin_node\<close>: the first \<open>pyqgis_plugin\<close> child of the root whose
  \<open>name\<close> attribute is the plugin's name, or a new last child with the eight empty
  field tags.  The result is the root and the position of the plugin's node in it.
\<close>

definition field_tags :: "string list" where
  "field_tags = [''version'', ''changelog'', ''description'', ''qgis_minimum_version'',
                 ''author_name'', ''email'', ''file_name'', ''download_url'']"

definition is_plugin_node :: "string \<Rightarrow> element \<Rightarrow> bool" where
  "is_plugin_node plugin_name n =
     (tag n = ''pyqgis_plugin'' \<and> elem_get n ''name'' = Some plugin_name)"

definition find_or_create_plugin_node :: "element \<Rightarrow> string \<Rightarrow> element \<times> nat" where
  "find_or_create_plugin_node root plugin_name =
     (case find_index (is_plugin_node plugin_name) (children root) of
        Some i \<Rightarrow> (root, i)
      | None \<Rightarrow>
          (let plugin_node =
                 foldl (\<lambda>n t. SubElement n t [])
                   (Element ''pyqgis_plugin'' [(''name'', plugin_name)] None None [])
                   field_tags
           in (set_children root (children root @ [plugin_node]), length (children root))))"

text \<open>
  \<open>_update_xml_tag\<close>: set the text of the first child with the tag, appending the
  child when there is none.
\<close>

definition update_xml_tag :: "element \<Rightarrow> string \<Rightarrow> string \<Rightarrow> element" where
  "update_xml_tag parent_node tag_name v =
     (case elem_find parent_node tag_name of
        None \<Rightarrow>
          set_children parent_node
            (children parent_node @ [Element tag_name [] (Some v) None []])
      | Some i \<Rightarrow>
          set_children parent_node
            ((children parent_node)[i := set_text (children parent_node ! i) v]))"

text \<open>\<open>_update_plugin_node_details\<close>, statement by statement.\<close>

definition update_plugin_node_details :: "element \<Rightarrow> PluginMetadata \<Rightarrow> element" where
  "update_plugin_node_details plugin_node metadata =
     (let n0 = elem_set plugin_node ''version'' (version metadata);
          n1 = update_xml_tag n0 ''version'' (version metadata);
          n2 = update_xml_tag n1 ''description'' (description metadata);
          n3 = update_xml_tag n2 ''changelog'' (changelog metadata);
          n4 = update_xml_tag n3 ''qgis_minimum_version'' (qgis_minimum_version metadata);
          n5 = update_xml_tag n4 ''author_name'' (author metadata);
          n6 = update_xml_tag n5 ''email'' (email metadata);
          clean_plugin_name = str_replace (name metadata) '' '' ''_'';
          new_zip_filename = clean_plugin_name @ ''.zip'';
          n7 = update_xml_tag n6 ''file_name'' new_zip_filename;
          new_url = rstrip (url_base metadata) ''/'' @ ''/'' @ new_zip_filename
      in update_xml_tag n7 ''download_url'' new_url)"

text \<open>
  Steps 3 and 4 of \<open>update_repository_file\<close> on the document in memory: find or
  create the plugin's node, then fill it in place.
\<close>

definition update_document :: "PluginMetadata \<Rightarrow> element \<Rightarrow> element" where
  "update_document metadata root =
     (case find_or_create_plugin_node root (name metadata) of
        (root1, i) \<Rightarrow>
          set_children root1
            ((children root1)[i := update_plugin_node_details (children root1 ! i) metadata]))"

section \<open>The file system\<close>

text \<open>
  The script works on two places.  The plugin's source directory is the current
  directory: a tree, read through relative paths without \<open>..\<close> (any other path is
  outside the tree and does not exist for the model); file names are unique in a
  directory and there are no symbolic links.  The shared repository is a store from
  paths to what stands there: a text file, a zip archive (the entries written to it,
  name and data, in order) or a folder.  The repository lies outside the source tree.
  The warnings the script logs are kept in order; informational log lines have no
  effect and are left out.
\<close>

datatype fsobj = Text string | Zip "(string \<times> string) list" | Folder

record world =
  cwd :: node
  repo :: "pure_path \<Rightarrow> fsobj option"
  warnings :: "string list"

fun lookup :: "node \<Rightarrow> string list \<Rightarrow> node option" where
  "lookup n [] = Some n"
| "lookup (File c) (p # ps) = None"
| "lookup (Dir es) (p # ps) =
     (case map_of es p of None \<Rightarrow> None | Some n \<Rightarrow> lookup n ps)"

definition cwd_lookup :: "world \<Rightarrow> pure_path \<Rightarrow> node option" where
  "cwd_lookup w p = (if anchor p \<noteq> [] then None else lookup (cwd w) (parts p))"

definition warn :: "string \<Rightarrow> world \<Rightarrow> world" where
  "warn msg w = w\<lparr>warnings := warnings w @ [msg]\<rparr>"

text \<open>
  \<open>os.walk(top)\<close>, top-down: the directory itself with its files (name and data),
  then every subdirectory in turn, under the name \<open>os.path.join\<close> gives it.
\<close>

fun walk :: "string \<Rightarrow> (string \<times> node) list \<Rightarrow> (string \<times> (string \<times> string) list) list"
  and walk_subdirs :: "string \<Rightarrow> (string \<times> node) list \<Rightarrow> (string \<times> (string \<times> string) list) list"
  and walk_files :: "(string \<times> node) list \<Rightarrow> (string \<times> string) list" where
  "walk dirpath es = (dirpath, walk_files es) # walk_subdirs dirpath es"
| "walk_subdirs dirpath [] = []"
| "walk_subdirs dirpath ((n, File c) # es) = walk_subdirs dirpath es"
| "walk_subdirs dirpath ((n, Dir sub) # es) = walk (os_path_join dirpath n) sub @ walk_subdirs dirpath es"
| "walk_files [] = []"
| "walk_files ((n, File c) # es) = (n, c) # walk_files es"
| "walk_files ((n, Dir sub) # es) = walk_files es"

text \<open>
  \<open>p.mkdir(parents=True, exist_ok=True)\<close> in the repository: every missing ancestor
  and the directory itself become folders; it fails when the operating system refuses
  or when something that is not a folder stands in the way.
\<close>

definition ancestors_and_self :: "pure_path \<Rightarrow> pure_path list" where
  "ancestors_and_self p =
     map (\<lambda>k. PurePath (anchor p) (take k (parts p))) [1..<Suc (length (parts p))]"

definition mkdir_parents ::
    "env \<Rightarrow> pure_path \<Rightarrow> (pure_path \<Rightarrow> fsobj option) \<Rightarrow> string + (pure_path \<Rightarrow> fsobj option)" where
  "mkdir_parents E p fs =
     (case mkdir_fault E of
        Some e \<Rightarrow> Inl e
      | None \<Rightarrow>
          if list_ex (\<lambda>q. fs q \<noteq> None \<and> fs q \<noteq> Some Folder) (ancestors_and_self p)
          then Inl ''File exists''
          else Inr (foldl (\<lambda>m q. m(q \<mapsto> Folder)) fs (ancestors_and_self p)))"

text \<open>
  \<open>tempfile.mkstemp(dir=d, prefix=..., suffix=...)\<close>: the directory must be there;
  the first candidate name that is free is created as an empty file, and when every
  candidate is taken the call fails.
\<close>

fun first_free :: "(pure_path \<Rightarrow> fsobj option) \<Rightarrow> pure_path list \<Rightarrow> pure_path option" where
  "first_free fs [] = None"
| "first_free fs (p # ps) = (if fs p = None then Some p else first_free fs ps)"

definition mkstemp ::
    "env \<Rightarrow> pure_path \<Rightarrow> string \<Rightarrow> string \<Rightarrow> (pure_path \<Rightarrow> fsobj option)
      \<Rightarrow> string + (pure_path \<times> (pure_path \<Rightarrow> fsobj option))" where
  "mkstemp E d prefix suffix fs =
     (if fs d \<noteq> Some Folder then Inl ''No such file or directory''
      else (case first_free fs
                   (map (\<lambda>r. PurePath (anchor d) (parts d @ [prefix @ r @ suffix])) (tmp_names E)) of
              None \<Rightarrow> Inl ''No usable temporary file name found''
            | Some tmp \<Rightarrow> Inr (tmp, fs(tmp \<mapsto> Text []))))"

text \<open>
  \<open>tree.write(tmp_name, ...)\<close>: the file gets the serialised document, or the write
  fails and leaves what it had written.
\<close>

definition tree_write ::
    "env \<Rightarrow> element \<Rightarrow> pure_path \<Rightarrow> (pure_path \<Rightarrow> fsobj option)
      \<Rightarrow> (string + unit) \<times> (pure_path \<Rightarrow> fsobj option)" where
  "tree_write E tree p fs =
     (case write_fault E of
        Some (partial, e) \<Rightarrow> (Inl e, fs(p \<mapsto> Text partial))
      | None \<Rightarrow> (Inr (), fs(p \<mapsto> Text (xml_serialize E tree))))"

text \<open>
  \<open>src.replace(dst)\<close>: an atomic rename; nothing changes when it fails.  It fails
  when the operating system refuses, when the source is missing and when the
  destination is a folder; renaming a file to itself does nothing.
\<close>

definition path_replace ::
    "env \<Rightarrow> pure_path \<Rightarrow> pure_path \<Rightarrow> (pure_path \<Rightarrow> fsobj option)
      \<Rightarrow> (string + unit) \<times> (pure_path \<Rightarrow> fsobj option)" where
  "path_replace E src dst fs =
     (case replace_fault E of
        Some e \<Rightarrow> (Inl e, fs)
      | None \<Rightarrow>
          if fs src = None then (Inl ''No such file or directory'', fs)
          else if fs dst = Some Folder then (Inl ''Is a directory'', fs)
          else if src = dst then (Inr (), fs)
          else (Inr (), (fs(dst := fs src))(src := None)))"

text \<open>\<open>p.unlink(missing_ok=True)\<close>.\<close>

definition unlink :: "pure_path \<Rightarrow> (pure_path \<Rightarrow> fsobj option) \<Rightarrow> (pure_path \<Rightarrow> fsobj option)" where
  "unlink p fs = fs(p := None)"

section \<open>Updating the repository manifest\<close>

text \<open>A value between single quotes, as the messages of the script show it.\<close>

definition quoted :: "string \<Rightarrow> string" where
  "quoted s = [CHR 0x27] @ s @ [CHR 0x27]"

text \<open>\<open>_file_url_to_path\<close>.\<close>

definition scheme_msg :: string where
  "scheme_msg = ''`download_url_base` must use the file:// scheme.''"

definition file_url_to_path :: "env \<Rightarrow> string \<Rightarrow> exn + pure_path" where
  "file_url_to_path E url =
     (let parsed = urlparse E url
      in if scheme parsed \<noteq> ''file'' then Inl (ReleaseScriptError scheme_msg)
         else (let path_part = url2pathname E (unquote E (path parsed))
               in if netloc parsed \<noteq> [] then Inr (Path (''//'' @ netloc parsed @ path_part))
                  else Inr (Path path_part)))"

text \<open>\<open>_get_repository_path\<close>: the path of \<open>plugins.xml\<close>, after making the directory.\<close>

definition get_repository_path ::
    "env \<Rightarrow> PluginMetadata \<Rightarrow> world \<Rightarrow> (exn + pure_path) \<times> world" where
  "get_repository_path E metadata w =
     (case file_url_to_path E (url_base metadata) of
        Inl e \<Rightarrow> (Inl e, w)
      | Inr shared_repo_path \<Rightarrow>
          (let master_xml_path = path_join shared_repo_path (Path ''plugins.xml'')
           in case mkdir_parents E shared_repo_path (repo w) of
                Inl e \<Rightarrow>
                  (Inl (ReleaseScriptError
                          (''Could not access or create shared repository directory: '' @ e)), w)
              | Inr fs \<Rightarrow> (Inr master_xml_path, w\<lparr>repo := fs\<rparr>)))"

text \<open>
  \<open>_load_or_create_xml_tree\<close>: parse the file when it exists (a parse error becomes a
  \<open>ReleaseScriptError\<close>), otherwise warn and start from an empty \<open>plugins\<close> root.
\<close>

definition load_or_create_xml_tree ::
    "env \<Rightarrow> pure_path \<Rightarrow> world \<Rightarrow> (exn + element) \<times> world" where
  "load_or_create_xml_tree E xml_path w =
     (case repo w xml_path of
        Some (Text s) \<Rightarrow>
          (case xml_parse E s of
             None \<Rightarrow> (Inl (ReleaseScriptError (''Error parsing '' @ path_str xml_path @ ''.'')), w)
           | Some root \<Rightarrow> (Inr root, w))
      | Some (Zip entries) \<Rightarrow>
          (Inl (ReleaseScriptError (''Error parsing '' @ path_str xml_path @ ''.'')), w)
      | Some Folder \<Rightarrow> (Inl (OSError ''Is a directory''), w)
      | None \<Rightarrow>
          (Inr (Element ''plugins'' [] None None []),
           warn (''Master repository file not found at '' @ quoted (path_str xml_path)) w))"

text \<open>
  \<open>_write_plugin_xml\<close>.  \<open>mkstemp\<close> stands before the \<open>try\<close>, so its failure leaves
  as an \<open>OSError\<close>; a failure of the write or of the rename is raised again as a
  \<open>ReleaseScriptError\<close>; the \<open>finally\<close> clause unlinks the temporary file on every
  way out of the \<open>try\<close>.
\<close>

definition write_failed_msg :: "pure_path \<Rightarrow> string \<Rightarrow> string" where
  "write_failed_msg destination_path e =
     ''Failed to write/update `'' @ path_str destination_path @ ''`. Check permissions on `''
       @ path_str (path_parent destination_path) @ ''`: '' @ e"

definition write_plugin_xml ::
    "env \<Rightarrow> element \<Rightarrow> pure_path \<Rightarrow> (pure_path \<Rightarrow> fsobj option)
      \<Rightarrow> (exn + unit) \<times> (pure_path \<Rightarrow> fsobj option)" where
  "write_plugin_xml E tree destination_path fs =
     (let repo_path = path_parent destination_path
      in case mkstemp E repo_path ''plugins.xml.'' ''.tmp'' fs of
           Inl e \<Rightarrow> (Inl (OSError e), fs)
         | Inr (tmp_name, fs1) \<Rightarrow>
             (case tree_write E tree tmp_name fs1 of
                (Inl e, fs2) \<Rightarrow>
                  (Inl (ReleaseScriptError (write_failed_msg destination_path e)),
                   unlink tmp_name fs2)
              | (Inr u, fs2) \<Rightarrow>
                  (case path_replace E tmp_name destination_path fs2 of
                     (Inl e, fs3) \<Rightarrow>
                       (Inl (ReleaseScriptError (write_failed_msg destination_path e)),
                        unlink tmp_name fs3)
                   | (Inr u', fs3) \<Rightarrow> (Inr (), unlink tmp_name fs3))))"

text \<open>
  \<open>update_repository_file\<close>.  Its helpers turn every parse error into a
  \<open>ReleaseScriptError\<close> themselves, so the final \<open>except\<close> clause catches nothing more.
\<close>

definition update_repository_file ::
    "env \<Rightarrow> PluginMetadata \<Rightarrow> world \<Rightarrow> (exn + unit) \<times> world" where
  "update_repository_file E metadata w =
     (case get_repository_path E metadata w of
        (Inl e, w1) \<Rightarrow> (Inl e, w1)
      | (Inr master_xml_path, w1) \<Rightarrow>
          (case load_or_create_xml_tree E master_xml_path w1 of
             (Inl e, w2) \<Rightarrow> (Inl e, w2)
           | (Inr root, w2) \<Rightarrow>
               (case write_plugin_xml E (update_document metadata root) master_xml_path (repo w2) of
                  (r, fs) \<Rightarrow> (r, w2\<lparr>repo := fs\<rparr>))))"

section \<open>Packaging\<close>

text \<open>
  \<open>_get_clean_metadata_content\<close>: \<open>read_text\<close> is what \<open>f.read()\<close> returns for the
  bytes of \<open>metadata.txt\<close>, \<open>clean_metadata\<close> is the rewriting of its lines.
\<close>

definition read_text :: "string \<Rightarrow> string" where
  "read_text file_content = universal_newlines file_content"

definition is_name_line :: "string \<Rightarrow> bool" where
  "is_name_line line = startswith (strip line) ''name=''"

definition clean_metadata :: "string \<Rightarrow> string \<Rightarrow> string" where
  "clean_metadata plugin_name original_content =
     concat (map (\<lambda>line. if is_name_line line then ''name='' @ plugin_name @ [LF] else line)
               (splitlines_keepends original_content))"

definition get_clean_metadata_content :: "string \<Rightarrow> world \<Rightarrow> exn + string" where
  "get_clean_metadata_content plugin_name w =
     (case cwd_lookup w (Path ''metadata.txt'') of
        Some (File c) \<Rightarrow> Inr (clean_metadata plugin_name (read_text c))
      | Some (Dir es) \<Rightarrow> Inl (OSError ''Is a directory'')
      | None \<Rightarrow> Inl (OSError ''No such file or directory''))"

text \<open>
  A \<open>ZipFile\<close> open for writing is the list of entries written so far.
  \<open>zipf.write(path, arcname)\<close> adds what stands at the path under the given name.
\<close>

definition zip_write :: "(string \<times> string) list \<Rightarrow> node \<Rightarrow> string \<Rightarrow> (string \<times> string) list" where
  "zip_write zipf n arcname = zipf @ [(arcname, case n of File c \<Rightarrow> c | Dir es \<Rightarrow> [])]"

text \<open>\<open>_add_files_to_zip\<close>: the loop over the listed files.\<close>

fun add_files_to_zip ::
    "(string \<times> string) list \<Rightarrow> string list \<Rightarrow> string \<Rightarrow> string \<Rightarrow> world
      \<Rightarrow> (string \<times> string) list \<times> world" where
  "add_files_to_zip zipf [] plugin_zip_dir clean_metadata_content w = (zipf, w)"
| "add_files_to_zip zipf (file_str # files) plugin_zip_dir clean_metadata_content w =
     (if file_str = ''metadata.txt''
      then add_files_to_zip
             (zipf @ [(as_posix (path_join (Path plugin_zip_dir) (Path ''metadata.txt'')),
                       clean_metadata_content)])
             files plugin_zip_dir clean_metadata_content w
      else (case cwd_lookup w (Path file_str) of
              Some n \<Rightarrow>
                add_files_to_zip
                  (zip_write zipf n (as_posix (path_join (Path plugin_zip_dir) (Path file_str))))
                  files plugin_zip_dir clean_metadata_content w
            | None \<Rightarrow>
                add_files_to_zip zipf files plugin_zip_dir clean_metadata_content
                  (warn (''File '' @ quoted (path_str (Path file_str)) @ '' not found, skipping.'') w)))"

text \<open>
  \<open>_add_directories_to_zip\<close>: the loop over the files of one walked directory, the
  loop over the walk, and the loop over the listed directories.
\<close>

fun add_walked_files ::
    "(string \<times> string) list \<Rightarrow> string \<Rightarrow> (string \<times> string) list \<Rightarrow> string \<Rightarrow> string list
      \<Rightarrow> (string \<times> string) list" where
  "add_walked_files zipf root [] plugin_zip_dir excl_extensions = zipf"
| "add_walked_files zipf root ((file, c) # files) plugin_zip_dir excl_extensions =
     (if list_ex (\<lambda>ext. endswith file ext) excl_extensions
      then add_walked_files zipf root files plugin_zip_dir excl_extensions
      else add_walked_files
             (zip_write zipf (File c)
                (as_posix (path_join (Path plugin_zip_dir) (path_join (Path root) (Path file)))))
             root files plugin_zip_dir excl_extensions)"

fun add_walk ::
    "(string \<times> string) list \<Rightarrow> (string \<times> (string \<times> string) list) list \<Rightarrow> string
      \<Rightarrow> string list \<Rightarrow> string list \<Rightarrow> (string \<times> string) list" where
  "add_walk zipf [] plugin_zip_dir excl_dirs excl_extensions = zipf"
| "add_walk zipf ((root, files) # rest) plugin_zip_dir excl_dirs excl_extensions =
     (if list_ex (\<lambda>excluded. str_contains root excluded) excl_dirs
      then add_walk zipf rest plugin_zip_dir excl_dirs excl_extensions
      else add_walk (add_walked_files zipf root files plugin_zip_dir excl_extensions)
             rest plugin_zip_dir excl_dirs excl_extensions)"

fun add_directories_to_zip ::
    "(string \<times> string) list \<Rightarrow> string list \<Rightarrow> string \<Rightarrow> string list \<Rightarrow> string list \<Rightarrow> world
      \<Rightarrow> (string \<times> string) list \<times> world" where
  "add_directories_to_zip zipf [] plugin_zip_dir excl_dirs excl_extensions w = (zipf, w)"
| "add_directories_to_zip zipf (dir_str # dirs) plugin_zip_dir excl_dirs excl_extensions w =
     (case cwd_lookup w (Path dir_str) of
        Some (Dir es) \<Rightarrow>
          add_directories_to_zip
            (add_walk zipf (walk (path_str (Path dir_str)) es)
               plugin_zip_dir excl_dirs excl_extensions)
            dirs plugin_zip_dir excl_dirs excl_extensions w
      | Some (File c) \<Rightarrow>
          add_directories_to_zip zipf dirs plugin_zip_dir excl_dirs excl_extensions
            (warn (''Directory '' @ quoted (path_str (Path dir_str)) @ '' not found, skipping.'') w)
      | None \<Rightarrow>
          add_directories_to_zip zipf dirs plugin_zip_dir excl_dirs excl_extensions
            (warn (''Directory '' @ quoted (path_str (Path dir_str)) @ '' not found, skipping.'') w))"

text \<open>
  \<open>package_plugin\<close>.  The name check comes first; then the metadata file is read and
  the URL converted; \<open>ZipFile(zip_path, mode="w")\<close> needs the folder of the archive
  and creates the file, which holds the written entries when the \<open>with\<close> block ends.
\<close>

definition name_mismatch_msg :: "string \<Rightarrow> string \<Rightarrow> string" where
  "name_mismatch_msg plugin_zip_dir clean_plugin_name =
     ''Name mismatch: The hardcoded 'plugin_zip_dir' ('' @ quoted plugin_zip_dir
       @ '') must match the 'name' from 'metadata.txt' with spaces replaced by underscores (''
       @ quoted clean_plugin_name @ '').''"

definition package_plugin :: "env \<Rightarrow> PluginMetadata \<Rightarrow> world \<Rightarrow> (exn + unit) \<times> world" where
  "package_plugin E metadata w =
     (let plugin_name = name metadata;
          clean_plugin_name = str_replace plugin_name '' '' ''_'';
          plugin_zip_dir = plugin_package_name metadata;
          files_to_zip = files_to_package metadata;
          dirs_to_zip = dirs_to_package metadata
      in if plugin_zip_dir \<noteq> clean_plugin_name
         then (Inl (ReleaseScriptError (name_mismatch_msg plugin_zip_dir clean_plugin_name)), w)
         else (case get_clean_metadata_content plugin_name w of
                 Inl e \<Rightarrow> (Inl e, w)
               | Inr clean_metadata_content \<Rightarrow>
                   (case file_url_to_path E (url_base metadata) of
                      Inl e \<Rightarrow> (Inl e, w)
                    | Inr shared_repo_path \<Rightarrow>
                        (let zip_path = path_join shared_repo_path (Path (clean_plugin_name @ ''.zip''))
                         in if repo w (path_parent zip_path) \<noteq> Some Folder
                               \<or> repo w zip_path = Some Folder
                            then (Inl (OSError ''No such file or directory''), w)
                            else (case add_files_to_zip [] files_to_zip plugin_zip_dir
                                         clean_metadata_content w of
                                    (zipf1, w1) \<Rightarrow>
                                      (case add_directories_to_zip zipf1 dirs_to_zip plugin_zip_dir
                                              (excluded_dirs metadata)
                                              (excluded_extensions metadata) w1 of
                                         (zipf2, w2) \<Rightarrow>
                                           (Inr (), w2\<lparr>repo := (repo w2)(zip_path \<mapsto> Zip zipf2)\<rparr>)))))))"

section \<open>The release run\<close>

text \<open>
  \<open>compile_translations\<close> with \<open>run_command\<close>: every \<open>*.ts\<close> entry of the translation
  directory goes through \<open>lrelease\<close>, which may change the source tree; a failed
  command is raised again with the hint about the search path.
\<close>

fun compile_ts_files :: "env \<Rightarrow> pure_path list \<Rightarrow> world \<Rightarrow> (exn + unit) \<times> world" where
  "compile_ts_files E [] w = (Inr (), w)"
| "compile_ts_files E (ts_file # ts_files) w =
     (case run_lrelease E (path_str ts_file) (cwd w) of
        Inl (ReleaseScriptError m) \<Rightarrow>
          (Inl (ReleaseScriptError
                  (''Failed to compile '' @ quoted (path_str ts_file)
                     @ ''. Is 'lrelease' in your PATH?'')), w)
      | Inl (OSError m) \<Rightarrow> (Inl (OSError m), w)
      | Inr tree \<Rightarrow> compile_ts_files E ts_files (w\<lparr>cwd := tree\<rparr>))"

definition compile_translations :: "env \<Rightarrow> PluginMetadata \<Rightarrow> world \<Rightarrow> (exn + unit) \<times> world" where
  "compile_translations E metadata w =
     (let i18n_dir = Path (translation_dir metadata)
      in case cwd_lookup w i18n_dir of
           Some (Dir es) \<Rightarrow>
             compile_ts_files E
               (map (\<lambda>n. PurePath (anchor i18n_dir) (parts i18n_dir @ [n]))
                  (filter (\<lambda>n. endswith n ''.ts'') (map fst es))) w
         | Some (File c) \<Rightarrow>
             (Inr (), warn (''Translation directory '' @ path_str i18n_dir
                              @ '' not found, skipping compilation.'') w)
         | None \<Rightarrow>
             (Inr (), warn (''Translation directory '' @ path_str i18n_dir
                              @ '' not found, skipping compilation.'') w))"

text \<open>
  \<open>get_plugin_metadata\<close>: the file must exist; what \<open>configparser\<close> makes of its
  content (a record, or the error for a missing section or key) is the library's part.
\<close>

definition get_plugin_metadata :: "env \<Rightarrow> world \<Rightarrow> exn + PluginMetadata" where
  "get_plugin_metadata E w =
     (case cwd_lookup w (Path ''metadata.txt'') of
        None \<Rightarrow> Inl (ReleaseScriptError (''Metadata file not found at '' @ quoted ''metadata.txt''))
      | Some (File c) \<Rightarrow> parse_config E c
      | Some (Dir es) \<Rightarrow> parse_config E [])"

text \<open>\<open>run_release_process\<close>.\<close>

definition release_name_of :: "string \<Rightarrow> string" where
  "release_name_of original_name = strip (str_replace original_name ''(dev)'' [])"

definition empty_name_msg :: string where
  "empty_name_msg = ''Plugin name cannot be empty after removing '(dev)' marker.''"

definition released_metadata :: "PluginMetadata \<Rightarrow> PluginMetadata" where
  "released_metadata metadata =
     (let original_name = name metadata;
          release_name = release_name_of original_name
      in if original_name \<noteq> release_name then metadata\<lparr>name := release_name\<rparr> else metadata)"

definition release_steps :: "env \<Rightarrow> PluginMetadata \<Rightarrow> world \<Rightarrow> (exn + unit) \<times> world" where
  "release_steps E metadata w =
     (case update_repository_file E metadata w of
        (Inl e, w1) \<Rightarrow> (Inl e, w1)
      | (Inr u1, w1) \<Rightarrow>
          (case compile_translations E metadata w1 of
             (Inl e, w2) \<Rightarrow> (Inl e, w2)
           | (Inr u2, w2) \<Rightarrow>
               (case package_plugin E metadata w2 of
                  (Inl e, w3) \<Rightarrow> (Inl e, w3)
                | (Inr u3, w3) \<Rightarrow>
                    (case file_url_to_path E (url_base metadata) of
                       Inl e \<Rightarrow> (Inl e, w3)
                     | Inr shared_repo_path \<Rightarrow> (Inr (), w3)))))"

definition run_release_process :: "env \<Rightarrow> world \<Rightarrow> (exn + unit) \<times> world" where
  "run_release_process E w =
     (case get_plugin_metadata E w of
        Inl e \<Rightarrow> (Inl e, w)
      | Inr metadata \<Rightarrow>
          (if release_name_of (name metadata) = []
           then (Inl (ReleaseScriptError empty_name_msg), w)
           else release_steps E (released_metadata metadata) w))"

section \<open>Reading the manifest and sample data\<close>

text \<open>
  The value of a field of an entry: the text of the first child with the tag, as
  \<open>find\<close> locates it.  The entries of a plugin are the \<open>pyqgis_plugin\<close> children of the
  root that carry its name.
\<close>

definition child_text :: "element \<Rightarrow> string \<Rightarrow> string option" where
  "child_text e t = (case elem_find e t of None \<Rightarrow> None | Some i \<Rightarrow> etext (children e ! i))"


text \<open>A metadata record, as a release of a plugin called \<open>My Plugin\<close> would read it.\<close>

definition demo_metadata :: PluginMetadata where
  "demo_metadata =
     \<lparr>plugin_package_name = ''My_Plugin'',
      files_to_package = [''metadata.txt'', ''missing.txt'', ''main.py''],
      dirs_to_package = [''modules''],
      translation_dir = ''i18n'',
      excluded_dirs = [''__pycache__''],
      excluded_extensions = [''.pyc''],
      name = ''My Plugin'',
      version = ''1.2.0'',
      changelog = ''First release'',
      description = ''A demo'',
      qgis_minimum_version = ''3.0'',
      author = ''Ann'',
      email = ''ann@example.org'',
      url_base = ''file:///srv/plugins/''\<rparr>"

text \<open>The entry \<open>_find_or_create_plugin_node\<close> appends for a plugin without one.\<close>

definition new_plugin_node :: "string \<Rightarrow> element" where
  "new_plugin_node plugin_name =
     foldl (\<lambda>n t. SubElement n t [])
       (Element ''pyqgis_plugin'' [(''name'', plugin_name)] None None []) field_tags"


text \<open>
  Two manifests: one with an entry for \<open>My Plugin\<close> and one for \<open>Other\<close>, and one that
  lists \<open>My Plugin\<close> twice.
\<close>

definition two_manifest :: element where
  "two_manifest =
     Element ''plugins'' [] None None
       [Element ''pyqgis_plugin'' [(''name'', ''Other''), (''version'', ''0.9'')] None None
          [Element ''version'' [] (Some ''0.9'') None [],
           Element ''file_name'' [] (Some ''Other.zip'') None []],
        Element ''pyqgis_plugin'' [(''name'', ''My Plugin''), (''version'', ''1.0.0'')] None None
          [Element ''version'' [] (Some ''1.0.0'') None []]]"


text \<open>
  A sample environment and a sample file system.  The sample URL parser only tells
  \<open>file://\<close> URLs from the others, and the sample XML functions are stand-ins; the
  theorems below hold for every environment.
\<close>

definition demo_urlparse :: "string \<Rightarrow> ParseResult" where
  "demo_urlparse url =
     (if startswith url ''file://''
      then \<lparr>scheme = ''file'', netloc = [], path = drop 7 url\<rparr>
      else \<lparr>scheme = takeWhile (\<lambda>c. c \<noteq> CHR '':'') url, netloc = [], path = []\<rparr>)"

definition demo_env :: env where
  "demo_env =
     \<lparr>urlparse = demo_urlparse,
      unquote = (\<lambda>s. s),
      url2pathname = (\<lambda>s. s),
      xml_parse = (\<lambda>s. if s = ''<plugins />'' then Some (Element ''plugins'' [] None None []) else None),
      xml_serialize = (\<lambda>e. ''<'' @ tag e @ ''>''),
      parse_config = (\<lambda>c. Inr (demo_metadata\<lparr>name := ''My Plugin (dev)''\<rparr>)),
      run_lrelease = (\<lambda>ts_file tree. Inr tree),
      tmp_names = [''a1b2c3d4'', ''e5f6g7h8''],
      mkdir_fault = None,
      write_fault = None,
      replace_fault = None\<rparr>"

definition demo_world :: world where
  "demo_world =
     \<lparr>cwd = Dir [(''metadata.txt'', File (''[general]'' @ [LF] @ ''name=My Plugin (dev)'' @ [LF])),
                 (''main.py'', File ''import modules''),
                 (''modules'',
                    Dir [(''a.py'', File ''A''),
                         (''a.pyc'', File ''X''),
                         (''__pycache__'', Dir [(''a.txt'', File ''Y'')]),
                         (''sub'', Dir [(''b.py'', File ''B'')])])],
      repo = [PurePath ''/'' [''srv''] \<mapsto> Folder,
              PurePath ''/'' [''srv'', ''plugins''] \<mapsto> Folder,
              PurePath ''/'' [''srv'', ''plugins'', ''plugins.xml''] \<mapsto> Text ''<plugins />''],
      warnings = []\<rparr>"

text \<open>A \<open>metadata.txt\<close> with Windows line endings, alone in the source directory.\<close>

definition crlf_metadata :: string where
  "crlf_metadata = ''[general]'' @ [CR, LF] @ ''name=My Plugin (dev)'' @ [CR, LF]"

definition crlf_world :: world where
  "crlf_world = \<lparr>cwd = Dir [(''metadata.txt'', File crlf_metadata)],
                  repo = (\<lambda>p. None), warnings = []\<rparr>"

text \<open>The same release with a base URL that ends in three slashes.\<close>

definition slashes_metadata :: PluginMetadata where
  "slashes_metadata = demo_metadata\<lparr>url_base := ''file:///srv/plugins///''\<rparr>"

text \<open>The same release with an \<open>http\<close> URL, the manifest of the sample repository, and
  an environment whose disk is full when the manifest is written.\<close>

definition http_metadata :: PluginMetadata where
  "http_metadata = demo_metadata\<lparr>url_base := ''http://example.org/plugins/''\<rparr>"

definition manifest_path :: pure_path where
  "manifest_path = PurePath ''/'' [''srv'', ''plugins'', ''plugins.xml'']"

definition full_disk_env :: env where
  "full_disk_env = demo_env\<lparr>write_fault := Some (''<?xml'', ''No space left on device'')\<rparr>"

section \<open>What the packaging loops see\<close>

text \<open>
  The files a walk of the listed directories meets, each with the path of the
  directory that holds it, its name and its data; the test the script applies to such
  a file; and the archive entry it writes for it.
\<close>

definition dir_walk :: "world \<Rightarrow> string \<Rightarrow> (string \<times> (string \<times> string) list) list" where
  "dir_walk w dir_str =
     (case cwd_lookup w (Path dir_str) of
        Some (Dir es) \<Rightarrow> walk (path_str (Path dir_str)) es
      | Some (File c) \<Rightarrow> []
      | None \<Rightarrow> [])"

definition files_of_walk :: "(string \<times> (string \<times> string) list) list \<Rightarrow> (string \<times> string \<times> string) list" where
  "files_of_walk ws = concat (map (\<lambda>(root, files). map (\<lambda>fc. (root, fc)) files) ws)"

definition walked_files :: "world \<Rightarrow> string list \<Rightarrow> (string \<times> string \<times> string) list" where
  "walked_files w dirs = concat (map (\<lambda>dir_str. files_of_walk (dir_walk w dir_str)) dirs)"

definition is_packaged :: "string list \<Rightarrow> string list \<Rightarrow> string \<times> string \<times> string \<Rightarrow> bool" where
  "is_packaged excl_dirs excl_extensions rfc =
     (case rfc of (root, file, c) \<Rightarrow>
        \<not> list_ex (\<lambda>excluded. str_contains root excluded) excl_dirs
        \<and> \<not> list_ex (\<lambda>ext. endswith file ext) excl_extensions)"

definition walked_entry :: "string \<Rightarrow> string \<times> string \<times> string \<Rightarrow> string \<times> string" where
  "walked_entry plugin_zip_dir rfc =
     (case rfc of (root, file, c) \<Rightarrow>
        (as_posix (path_join (Path plugin_zip_dir) (path_join (Path root) (Path file))), c))"

text \<open>
  What \<open>_add_files_to_zip\<close> does for one listed file: the entries it writes and the
  warnings it logs.  A plain relative path has no empty and no \<open>.\<close> component.
\<close>

definition node_data :: "node \<Rightarrow> string" where
  "node_data n = (case n of File c \<Rightarrow> c | Dir es \<Rightarrow> [])"

definition file_entries :: "string \<Rightarrow> string \<Rightarrow> world \<Rightarrow> string \<Rightarrow> (string \<times> string) list" where
  "file_entries plugin_zip_dir clean_metadata_content w file_str =
     (if file_str = ''metadata.txt''
      then [(as_posix (path_join (Path plugin_zip_dir) (Path ''metadata.txt'')),
             clean_metadata_content)]
      else (case cwd_lookup w (Path file_str) of
              Some n \<Rightarrow> [(as_posix (path_join (Path plugin_zip_dir) (Path file_str)), node_data n)]
            | None \<Rightarrow> []))"

definition file_warnings :: "world \<Rightarrow> string \<Rightarrow> string list" where
  "file_warnings w file_str =
     (if file_str \<noteq> ''metadata.txt'' \<and> cwd_lookup w (Path file_str) = None
      then [''File '' @ quoted (path_str (Path file_str)) @ '' not found, skipping.'']
      else [])"

definition plain_relative :: "string \<Rightarrow> bool" where
  "plain_relative s = list_all (\<lambda>p. p \<noteq> [] \<and> p \<noteq> ''.'') (split_on (CHR ''/'') s)"

section \<open>Facts about the XML operations\<close>

lemma find_index_Some:
  "find_index P xs = Some i \<Longrightarrow> i < length xs \<and> P (xs ! i) \<and> (\<forall>j<i. \<not> P (xs ! j))"
proof (induction xs arbitrary: i)
  case Nil
  then show ?case by simp
next
  case (Cons x xs)
  show ?case
  proof (cases "P x")
    case True
    with Cons.prems show ?thesis by simp
  next
    case False
    with Cons.prems obtain k where k: "find_index P xs = Some k" "i = Suc k"
      by auto
    from Cons.IH[OF k(1)] False k(2) show ?thesis
      by (auto simp: nth_Cons split: nat.splits)
  qed
qed


lemma find_index_first:
  "i < length xs \<Longrightarrow> P (xs ! i) \<Longrightarrow> (\<forall>j<i. \<not> P (xs ! j)) \<Longrightarrow> find_index P xs = Some i"
proof (induction xs arbitrary: i)
  case Nil
  then show ?case by simp
next
  case (Cons x xs)
  show ?case
  proof (cases i)
    case 0
    with Cons.prems show ?thesis by simp
  next
    case (Suc k)
    with Cons.prems have "\<not> P x" by auto
    moreover from Cons.prems Suc have "find_index P xs = Some k"
      by (intro Cons.IH) auto
    ultimately show ?thesis using Suc by simp
  qed
qed

lemma find_index_append_new:
  "find_index P xs = None \<Longrightarrow> P y \<Longrightarrow> find_index P (xs @ [y]) = Some (length xs)"
  by (induction xs) (auto split: if_splits)

lemma find_index_append_other:
  "\<not> P y \<Longrightarrow> find_index P (xs @ [y]) = find_index P xs"
  by (induction xs) auto

lemma find_index_update_same:
  "i < length xs \<Longrightarrow> P y = P (xs ! i) \<Longrightarrow> find_index P (xs[i := y]) = find_index P xs"
proof (induction xs arbitrary: i)
  case Nil
  then show ?case by simp
next
  case (Cons x xs)
  then show ?case by (cases i) auto
qed

lemma tag_set_text [simp]: "tag (set_text e v) = tag e"
  by (simp add: set_text_def)

lemma etext_set_text [simp]: "etext (set_text e v) = Some v"
  by (simp add: set_text_def)

lemma attrib_set_text [simp]: "attrib (set_text e v) = attrib e"
  by (simp add: set_text_def)

lemma children_set_children [simp]: "children (set_children e cs) = cs"
  by (simp add: set_children_def)

lemma tag_set_children [simp]: "tag (set_children e cs) = tag e"
  by (simp add: set_children_def)

lemma attrib_set_children [simp]: "attrib (set_children e cs) = attrib e"
  by (simp add: set_children_def)

lemma child_text_update_same: "child_text (update_xml_tag e t v) t = Some v"
proof (cases "elem_find e t")
  case None
  then have "find_index (\<lambda>c. tag c = t) (children e @ [Element t [] (Some v) None []])
             = Some (length (children e))"
    by (simp add: elem_find_def find_index_append_new)
  with None show ?thesis
    by (simp add: child_text_def update_xml_tag_def elem_find_def)
next
  case (Some i)
  then have i: "i < length (children e)" "tag (children e ! i) = t"
    using find_index_Some[of "\<lambda>c. tag c = t" "children e" i] by (auto simp: elem_find_def)
  then have "find_index (\<lambda>c. tag c = t) ((children e)[i := set_text (children e ! i) v]) = Some i"
    using Some by (simp add: find_index_update_same elem_find_def)
  with Some i show ?thesis
    by (simp add: child_text_def update_xml_tag_def elem_find_def)
qed

lemma child_text_update_other:
  assumes "t' \<noteq> t"
  shows "child_text (update_xml_tag e t v) t' = child_text e t'"
proof (cases "elem_find e t")
  case None
  have "find_index (\<lambda>c. tag c = t') (children e @ [Element t [] (Some v) None []])
        = find_index (\<lambda>c. tag c = t') (children e)"
    using assms by (simp add: find_index_append_other)
  moreover have "\<And>j. find_index (\<lambda>c. tag c = t') (children e) = Some j \<Longrightarrow>
      (children e @ [Element t [] (Some v) None []]) ! j = children e ! j"
    using find_index_Some[of "\<lambda>c. tag c = t'" "children e"] by (simp add: nth_append)
  ultimately show ?thesis using None
    by (simp add: child_text_def update_xml_tag_def elem_find_def split: option.splits)
next
  case (Some i)
  then have i: "i < length (children e)" "tag (children e ! i) = t"
    using find_index_Some[of "\<lambda>c. tag c = t" "children e" i] by (auto simp: elem_find_def)
  then have eq: "find_index (\<lambda>c. tag c = t') ((children e)[i := set_text (children e ! i) v])
        = find_index (\<lambda>c. tag c = t') (children e)"
    by (simp add: find_index_update_same)
  have "\<And>j. find_index (\<lambda>c. tag c = t') (children e) = Some j \<Longrightarrow> j \<noteq> i"
    using find_index_Some[of "\<lambda>c. tag c = t'" "children e"] i assms by auto
  with eq Some show ?thesis
    by (auto simp: child_text_def update_xml_tag_def elem_find_def split: option.splits)
qed

lemma elem_get_update_xml_tag [simp]: "elem_get (update_xml_tag e t v) k = elem_get e k"
  by (simp add: elem_get_def update_xml_tag_def split: option.splits)

lemma tag_update_xml_tag [simp]: "tag (update_xml_tag e t v) = tag e"
  by (simp add: update_xml_tag_def split: option.splits)

lemma elem_get_elem_set: "elem_get (elem_set e k v) k' = (if k' = k then Some v else elem_get e k')"
  by (simp add: elem_get_def elem_set_def update_conv')

lemma child_text_elem_set [simp]: "child_text (elem_set e k v) t = child_text e t"
  by (simp add: child_text_def elem_set_def elem_find_def split: option.splits)

lemma tag_elem_set [simp]: "tag (elem_set e k v) = tag e"
  by (simp add: elem_set_def)



lemma set_children_twice [simp]: "set_children (set_children e a) b = set_children e b"
  by (simp add: set_children_def)



lemma details_child_texts:
  "child_text (update_plugin_node_details n md) ''version'' = Some (version md)"
  "child_text (update_plugin_node_details n md) ''description'' = Some (description md)"
  "child_text (update_plugin_node_details n md) ''changelog'' = Some (changelog md)"
  "child_text (update_plugin_node_details n md) ''qgis_minimum_version'' = Some (qgis_minimum_version md)"
  "child_text (update_plugin_node_details n md) ''author_name'' = Some (author md)"
  "child_text (update_plugin_node_details n md) ''email'' = Some (email md)"
  "child_text (update_plugin_node_details n md) ''file_name''
     = Some (str_replace (name md) '' '' ''_'' @ ''.zip'')"
  "child_text (update_plugin_node_details n md) ''download_url''
     = Some (rstrip (url_base md) ''/'' @ ''/'' @ str_replace (name md) '' '' ''_'' @ ''.zip'')"
  "elem_get (update_plugin_node_details n md) ''version'' = Some (version md)"
  by (simp_all add: update_plugin_node_details_def Let_def child_text_update_same
      child_text_update_other elem_get_elem_set)


lemma details_tag [simp]: "tag (update_plugin_node_details n md) = tag n"
  by (simp add: update_plugin_node_details_def Let_def)

lemma details_name [simp]:
  "elem_get (update_plugin_node_details n md) ''name'' = elem_get n ''name''"
  by (simp add: update_plugin_node_details_def Let_def elem_get_elem_set)

lemma details_is_plugin_node [simp]:
  "is_plugin_node B (update_plugin_node_details n md) = is_plugin_node B n"
  by (simp add: is_plugin_node_def)

lemma tag_foldl_SubElement [simp]: "tag (foldl (\<lambda>n t. SubElement n t []) e ts) = tag e"
  by (induction ts arbitrary: e) (simp_all add: SubElement_def)

lemma attrib_foldl_SubElement [simp]: "attrib (foldl (\<lambda>n t. SubElement n t []) e ts) = attrib e"
  by (induction ts arbitrary: e) (simp_all add: SubElement_def)

lemma new_plugin_node_is [simp]: "is_plugin_node B (new_plugin_node A) = (B = A)"
  by (auto simp add: is_plugin_node_def new_plugin_node_def elem_get_def)











section \<open>Derived fields of an entry\<close>

text \<open>
  What \<open>rstrip\<close> with one character and the replacement of spaces compute: the
  string is what \<open>rstrip\<close> returns followed by copies of the character only, and the
  returned string does not end in it; every space becomes an underscore and every
  other character stays.
\<close>

lemma takeWhile_eq_replicate: "takeWhile (\<lambda>x. x = c) xs = replicate (length (takeWhile (\<lambda>x. x = c) xs)) c"
  by (induction xs) auto

lemma rstrip_char:
  "\<exists>k. s = rstrip s [c] @ replicate k c \<and> (rstrip s [c] = [] \<or> last (rstrip s [c]) \<noteq> c)"
proof -
  let ?P = "\<lambda>x. x \<in> set [c]"
  let ?t = "takeWhile ?P (rev s)"
  let ?d = "dropWhile ?P (rev s)"
  have P: "?P = (\<lambda>x. x = c)" by auto
  have "rev s = ?t @ ?d" by simp
  then have "s = rev ?d @ rev ?t"
    by (metis rev_append rev_rev_ident)
  moreover have "?t = replicate (length ?t) c"
    unfolding P by (rule takeWhile_eq_replicate)
  then have "rev ?t = replicate (length ?t) c"
    by (metis rev_replicate)
  ultimately have 1: "s = rstrip s [c] @ replicate (length ?t) c"
    by (simp add: rstrip_def)
  have 2: "rstrip s [c] = [] \<or> last (rstrip s [c]) \<noteq> c"
  proof (cases "?d = []")
    case True
    then show ?thesis by (simp add: rstrip_def)
  next
    case False
    then have "\<not> ?P (hd ?d)" by (rule hd_dropWhile)
    with False show ?thesis
      by (simp add: rstrip_def last_rev)
  qed
  from 1 2 show ?thesis by blast
qed

lemma replace_space: "str_replace s '' '' ''_'' = map (\<lambda>c. if c = CHR '' '' then CHR ''_'' else c) s"
  by (induction s) (auto simp: str_replace_def startswith_def)

text \<open>
  C6.  After \<open>_update_plugin_node_details\<close> has run on an entry, the entry's
  \<open>file_name\<close> field is the plugin name with every space replaced by an underscore,
  followed by \<open>.zip\<close>; its \<open>download_url\<close> field is the stem of the base URL, a
  slash and that file name, where the base URL is the stem followed by slashes only
  and the stem does not end in a slash; and the \<open>version\<close> attribute and the
  \<open>version\<close> field both hold the version of the metadata.
\<close>

theorem update_plugin_node_details_fields:
  "\<exists>stem k.
      url_base metadata = stem @ replicate k (CHR ''/'')
    \<and> (stem = [] \<or> last stem \<noteq> CHR ''/'')
    \<and> stem = rstrip (url_base metadata) ''/''
    \<and> str_replace (name metadata) '' '' ''_''
         = map (\<lambda>c. if c = CHR '' '' then CHR ''_'' else c) (name metadata)
    \<and> child_text (update_plugin_node_details plugin_node metadata) ''file_name''
         = Some (map (\<lambda>c. if c = CHR '' '' then CHR ''_'' else c) (name metadata) @ ''.zip'')
    \<and> child_text (update_plugin_node_details plugin_node metadata) ''download_url''
         = Some (stem @ ''/''
                  @ map (\<lambda>c. if c = CHR '' '' then CHR ''_'' else c) (name metadata) @ ''.zip'')
    \<and> elem_get (update_plugin_node_details plugin_node metadata) ''version''
         = child_text (update_plugin_node_details plugin_node metadata) ''version''
    \<and> child_text (update_plugin_node_details plugin_node metadata) ''version''
         = Some (version metadata)"
proof -
  obtain k where k: "url_base metadata = rstrip (url_base metadata) ''/'' @ replicate k (CHR ''/'')"
      "rstrip (url_base metadata) ''/'' = [] \<or> last (rstrip (url_base metadata) ''/'') \<noteq> CHR ''/''"
    using rstrip_char[of "url_base metadata" "CHR ''/''"] by blast
  have f: "child_text (update_plugin_node_details plugin_node metadata) ''file_name''
         = Some (map (\<lambda>c. if c = CHR '' '' then CHR ''_'' else c) (name metadata) @ ''.zip'')"
    and d: "child_text (update_plugin_node_details plugin_node metadata) ''download_url''
         = Some (rstrip (url_base metadata) ''/'' @ ''/''
                  @ map (\<lambda>c. if c = CHR '' '' then CHR ''_'' else c) (name metadata) @ ''.zip'')"
    and v: "elem_get (update_plugin_node_details plugin_node metadata) ''version''
         = child_text (update_plugin_node_details plugin_node metadata) ''version''"
      "child_text (update_plugin_node_details plugin_node metadata) ''version''
         = Some (version metadata)"
    by (simp_all add: details_child_texts replace_space)
  from k f d v replace_space show ?thesis by blast
qed

theorem update_plugin_node_details_fields_witness:
  "url_base slashes_metadata = ''file:///srv/plugins'' @ replicate 3 (CHR ''/'')
   \<and> child_text (update_plugin_node_details (new_plugin_node ''My Plugin'') slashes_metadata)
         ''file_name'' = Some ''My_Plugin.zip''
   \<and> child_text (update_plugin_node_details (new_plugin_node ''My Plugin'') slashes_metadata)
         ''download_url'' = Some ''file:///srv/plugins/My_Plugin.zip''
   \<and> elem_get (update_plugin_node_details (new_plugin_node ''My Plugin'') slashes_metadata)
         ''version'' = Some ''1.2.0''"
proof -
  have u: "url_base slashes_metadata = ''file:///srv/plugins///''"
    and n: "name slashes_metadata = ''My Plugin''"
    and v: "version slashes_metadata = ''1.2.0''"
    by (simp_all add: slashes_metadata_def demo_metadata_def)
  have r: "rstrip ''file:///srv/plugins///'' ''/'' = ''file:///srv/plugins''"
    by (simp add: rstrip_def)
  from update_plugin_node_details_fields [of slashes_metadata "new_plugin_node ''My Plugin''"]
  show ?thesis
    unfolding u n v r by (auto simp: numeral_3_eq_3)
qed

section \<open>Entries of other plugins\<close>




section \<open>Running the update twice\<close>





section \<open>The cleaned metadata file\<close>

lemma concat_splitlines_from: "concat (splitlines_from cur s) = cur @ s"
  by (induction cur s rule: splitlines_from.induct) auto

lemma concat_splitlines_keepends: "concat (splitlines_keepends s) = s"
  by (simp add: splitlines_keepends_def concat_splitlines_from)

lemma universal_newlines_id: "CR \<notin> set s \<Longrightarrow> universal_newlines s = s"
  by (induction s rule: universal_newlines.induct) auto

lemma universal_newlines_no_CR: "CR \<notin> set (universal_newlines s)"
  by (induction s rule: universal_newlines.induct) (auto simp: CR_def LF_def)

lemma cwd_lookup_crlf: "cwd_lookup crlf_world (Path ''metadata.txt'') = Some (File crlf_metadata)"
  by (simp add: cwd_lookup_def crlf_world_def Path_def path_anchor_def)

text \<open>
  C9, as the script does it.  The script reads \<open>metadata.txt\<close> in text mode, so what
  it splits into lines is the content with every CR LF and lone CR already turned
  into LF.  Of these lines, each one whose stripped form starts with \<open>name=\<close>, wherever
  it stands, comes back as \<open>name=\<close>, the release name and one LF; every other line
  comes back as it was read; the lines read make up the whole text read.  For a file
  without a CR character the text read is the file, so its other lines are returned
  byte for byte.
\<close>

theorem clean_metadata_content_lines:
  assumes "cwd_lookup w (Path ''metadata.txt'') = Some (File c)"
  shows "\<exists>out. get_clean_metadata_content plugin_name w = Inr (concat out)
           \<and> length out = length (splitlines_keepends (read_text c))
           \<and> (\<forall>i<length out.
                 out ! i = (if is_name_line (splitlines_keepends (read_text c) ! i)
                            then ''name='' @ plugin_name @ [LF]
                            else splitlines_keepends (read_text c) ! i))
           \<and> concat (splitlines_keepends (read_text c)) = read_text c
           \<and> (CR \<notin> set c \<longrightarrow> read_text c = c)"
proof -
  let ?f = "\<lambda>line. if is_name_line line then ''name='' @ plugin_name @ [LF] else line"
  let ?out = "map ?f (splitlines_keepends (read_text c))"
  have "get_clean_metadata_content plugin_name w = Inr (concat ?out)"
    using assms by (simp add: get_clean_metadata_content_def clean_metadata_def)
  moreover have "length ?out = length (splitlines_keepends (read_text c))"
    by simp
  moreover have "\<forall>i<length ?out. ?out ! i = ?f (splitlines_keepends (read_text c) ! i)"
    by simp
  moreover have "concat (splitlines_keepends (read_text c)) = read_text c"
    by (rule concat_splitlines_keepends)
  moreover have "CR \<notin> set c \<longrightarrow> read_text c = c"
    by (simp add: read_text_def universal_newlines_id)
  ultimately show ?thesis by blast
qed


theorem clean_metadata_content_lines_witness:
  "cwd_lookup crlf_world (Path ''metadata.txt'') = Some (File crlf_metadata)
   \<and> (\<exists>out. get_clean_metadata_content ''My Plugin'' crlf_world = Inr (concat out)
          \<and> length out = length (splitlines_keepends (read_text crlf_metadata)))"
  using clean_metadata_content_lines [OF cwd_lookup_crlf, of "''My Plugin''"] cwd_lookup_crlf
  by blast

text \<open>
  The statement of C9 with the lines of the file itself fails on a file with Windows
  line endings: its first line, \<open>[general]\<close> CR LF, is no name line, and the script
  returns it as \<open>[general]\<close> LF.
\<close>

theorem clean_metadata_content_crlf:
  "get_clean_metadata_content ''My Plugin'' crlf_world
     = Inr (''[general]'' @ [LF] @ ''name=My Plugin'' @ [LF])
   \<and> splitlines_keepends crlf_metadata
     = [''[general]'' @ [CR, LF], ''name=My Plugin (dev)'' @ [CR, LF]]
   \<and> \<not> is_name_line (''[general]'' @ [CR, LF])"
  by (simp add: get_clean_metadata_content_def cwd_lookup_crlf clean_metadata_def read_text_def
      crlf_metadata_def splitlines_keepends_def is_name_line_def strip_def isspace_def
      startswith_def is_linebreak_def CR_def LF_def)

section \<open>The release name\<close>

lemma released_metadata_name:
  "released_metadata md = md\<lparr>name := release_name_of (name md)\<rparr>"
  by (simp add: released_metadata_def Let_def)

text \<open>
  C5.  \<open>run_release_process\<close> takes as release name the configured name with every
  \<open>(dev)\<close> removed and the white space at both ends stripped.  When that name is empty
  the run fails with the script's own error and nothing has been touched; otherwise
  every later step (manifest, translations, package) runs on the metadata whose name
  is the release name.
\<close>

theorem run_release_process_name:
  assumes "get_plugin_metadata E w = Inr metadata"
  shows "release_name_of (name metadata) = strip (str_replace (name metadata) ''(dev)'' [])
       \<and> (release_name_of (name metadata) = []
            \<longrightarrow> run_release_process E w = (Inl (ReleaseScriptError empty_name_msg), w))
       \<and> (release_name_of (name metadata) \<noteq> []
            \<longrightarrow> run_release_process E w
                = release_steps E (metadata\<lparr>name := release_name_of (name metadata)\<rparr>) w)"
  using assms
  by (simp add: run_release_process_def released_metadata_name release_name_of_def)

lemma demo_release_name: "release_name_of ''My Plugin (dev)'' = ''My Plugin''"
  by (simp add: release_name_of_def str_replace_def startswith_def strip_def isspace_def)

lemma demo_get_metadata:
  "get_plugin_metadata demo_env demo_world = Inr (demo_metadata\<lparr>name := ''My Plugin (dev)''\<rparr>)"
  by (simp add: get_plugin_metadata_def cwd_lookup_def demo_world_def Path_def path_anchor_def
      demo_env_def)

theorem run_release_process_name_witness:
  "get_plugin_metadata demo_env demo_world = Inr (demo_metadata\<lparr>name := ''My Plugin (dev)''\<rparr>)
   \<and> release_name_of ''My Plugin (dev)'' = ''My Plugin''
   \<and> run_release_process demo_env demo_world
       = release_steps demo_env (demo_metadata\<lparr>name := ''My Plugin''\<rparr>) demo_world"
  using run_release_process_name [OF demo_get_metadata] demo_get_metadata demo_release_name
  by simp


section \<open>The package name check\<close>

text \<open>
  C3.  When the configured package name is not the plugin's name with every space
  replaced by an underscore, \<open>package_plugin\<close> fails with the script's own error and
  leaves the file system as it was: no archive has been opened or created.
\<close>

theorem package_plugin_name_mismatch:
  assumes "plugin_package_name metadata \<noteq> str_replace (name metadata) '' '' ''_''"
  shows "package_plugin E metadata w
         = (Inl (ReleaseScriptError
                   (name_mismatch_msg (plugin_package_name metadata)
                      (str_replace (name metadata) '' '' ''_''))), w)"
  using assms by (simp add: package_plugin_def Let_def)

theorem package_plugin_name_mismatch_witness:
  "plugin_package_name (demo_metadata\<lparr>plugin_package_name := ''Other''\<rparr>)
     \<noteq> str_replace (name (demo_metadata\<lparr>plugin_package_name := ''Other''\<rparr>)) '' '' ''_''
   \<and> snd (package_plugin demo_env (demo_metadata\<lparr>plugin_package_name := ''Other''\<rparr>) demo_world)
       = demo_world
   \<and> (\<exists>m. fst (package_plugin demo_env (demo_metadata\<lparr>plugin_package_name := ''Other''\<rparr>) demo_world)
       = Inl (ReleaseScriptError m))"
proof -
  have h: "plugin_package_name (demo_metadata\<lparr>plugin_package_name := ''Other''\<rparr>)
     \<noteq> str_replace (name (demo_metadata\<lparr>plugin_package_name := ''Other''\<rparr>)) '' '' ''_''"
    by (simp add: demo_metadata_def replace_space)
  show ?thesis
    using h package_plugin_name_mismatch [OF h, of demo_env demo_world] by simp
qed

section \<open>The URL scheme\<close>

lemma file_url_to_path_bad_scheme:
  "scheme (urlparse E url) \<noteq> ''file'' \<Longrightarrow> file_url_to_path E url = Inl (ReleaseScriptError scheme_msg)"
  by (simp add: file_url_to_path_def Let_def)

lemma scheme_msg_names_scheme: "str_contains scheme_msg ''file://''"
  by (simp add: scheme_msg_def startswith_def)

text \<open>
  C10, as the script does it.  With a base URL whose scheme is not \<open>file\<close>,
  \<open>update_repository_file\<close> fails with the script's own error, whose message names
  the \<open>file://\<close> scheme, and has created nothing.  \<open>package_plugin\<close> fails as well and
  has created nothing; its error is that same one when the package name matches the
  plugin name and \<open>metadata.txt\<close> is a readable file, since the name check and the
  reading of the metadata file come before the URL is looked at.
\<close>

theorem bad_scheme_stops_release:
  assumes "scheme (urlparse E (url_base metadata)) \<noteq> ''file''"
  shows "update_repository_file E metadata w = (Inl (ReleaseScriptError scheme_msg), w)
       \<and> str_contains scheme_msg ''file://''
       \<and> (\<exists>e. package_plugin E metadata w = (Inl e, w))
       \<and> (plugin_package_name metadata = str_replace (name metadata) '' '' ''_''
            \<and> (\<exists>c. cwd_lookup w (Path ''metadata.txt'') = Some (File c))
            \<longrightarrow> package_plugin E metadata w = (Inl (ReleaseScriptError scheme_msg), w))"
proof -
  have bad: "file_url_to_path E (url_base metadata) = Inl (ReleaseScriptError scheme_msg)"
    using assms by (rule file_url_to_path_bad_scheme)
  have 1: "update_repository_file E metadata w = (Inl (ReleaseScriptError scheme_msg), w)"
    by (simp add: update_repository_file_def get_repository_path_def bad)
  have 2: "\<exists>e. package_plugin E metadata w = (Inl e, w)"
    by (cases "get_clean_metadata_content (name metadata) w")
       (simp_all add: package_plugin_def Let_def bad)
  have 3: "plugin_package_name metadata = str_replace (name metadata) '' '' ''_''
            \<and> (\<exists>c. cwd_lookup w (Path ''metadata.txt'') = Some (File c))
            \<longrightarrow> package_plugin E metadata w = (Inl (ReleaseScriptError scheme_msg), w)"
    by (auto simp: package_plugin_def Let_def bad get_clean_metadata_content_def)
  from 1 2 3 scheme_msg_names_scheme show ?thesis by blast
qed

lemma http_scheme: "scheme (urlparse demo_env (url_base http_metadata)) \<noteq> ''file''"
  by (simp add: demo_env_def http_metadata_def demo_urlparse_def startswith_def)

theorem bad_scheme_stops_release_witness:
  "scheme (urlparse demo_env (url_base http_metadata)) \<noteq> ''file''
   \<and> update_repository_file demo_env http_metadata demo_world
       = (Inl (ReleaseScriptError scheme_msg), demo_world)"
  using bad_scheme_stops_release [OF http_scheme, of demo_world] http_scheme by blast

text \<open>
  The statement of C10 for \<open>package_plugin\<close> without those conditions fails: with a
  package name that does not match, the error is the one of the name check, and its
  message does not name the scheme.
\<close>

theorem bad_scheme_name_mismatch_first:
  "scheme (urlparse demo_env (url_base (http_metadata\<lparr>plugin_package_name := ''Other''\<rparr>))) \<noteq> ''file''
   \<and> package_plugin demo_env (http_metadata\<lparr>plugin_package_name := ''Other''\<rparr>) demo_world
       = (Inl (ReleaseScriptError (name_mismatch_msg ''Other'' ''My_Plugin'')), demo_world)
   \<and> name_mismatch_msg ''Other'' ''My_Plugin'' \<noteq> scheme_msg
   \<and> \<not> str_contains (name_mismatch_msg ''Other'' ''My_Plugin'') ''file://''"
proof -
  have 1: "scheme (urlparse demo_env (url_base (http_metadata\<lparr>plugin_package_name := ''Other''\<rparr>))) \<noteq> ''file''"
    using http_scheme by simp
  have 2: "package_plugin demo_env (http_metadata\<lparr>plugin_package_name := ''Other''\<rparr>) demo_world
       = (Inl (ReleaseScriptError (name_mismatch_msg ''Other'' ''My_Plugin'')), demo_world)"
    by (simp add: package_plugin_def Let_def http_metadata_def demo_metadata_def replace_space)
  have 3: "name_mismatch_msg ''Other'' ''My_Plugin'' \<noteq> scheme_msg"
    by (simp add: name_mismatch_msg_def scheme_msg_def)
  have 4: "\<not> str_contains (name_mismatch_msg ''Other'' ''My_Plugin'') ''file://''"
    by (simp add: name_mismatch_msg_def quoted_def startswith_def)
  from 1 2 3 4 show ?thesis by blast
qed

section \<open>Writing the manifest\<close>

lemma first_free_Some: "first_free fs ps = Some p \<Longrightarrow> p \<in> set ps \<and> fs p = None"
  by (induction ps) (auto split: if_splits)

lemma mkstemp_Inr:
  assumes "mkstemp E d prefix suffix fs = Inr (tmp, fs1)"
  shows "fs tmp = None \<and> fs1 = fs(tmp \<mapsto> Text []) \<and> path_parent tmp = d \<and> fs d = Some Folder"
proof -
  from assms have d: "fs d = Some Folder"
    by (auto simp: mkstemp_def split: if_splits)
  with assms have ff: "first_free fs
      (map (\<lambda>r. PurePath (anchor d) (parts d @ [prefix @ r @ suffix])) (tmp_names E)) = Some tmp"
    and fs1: "fs1 = fs(tmp \<mapsto> Text [])"
    by (auto simp: mkstemp_def split: option.splits)
  from first_free_Some[OF ff] obtain r where
    "tmp = PurePath (anchor d) (parts d @ [prefix @ r @ suffix])" "fs tmp = None"
    by auto
  then show ?thesis using fs1 d by (simp add: path_parent_def)
qed

lemma unlink_fresh: "fs tmp = None \<Longrightarrow> unlink tmp (fs(tmp \<mapsto> x)) = fs"
  by (auto simp: unlink_def)

lemma write_plugin_xml_eq:
  assumes "mkstemp E (path_parent destination_path) ''plugins.xml.'' ''.tmp'' fs = Inr (tmp, fs1)"
  shows "write_plugin_xml E tree destination_path fs =
     (case write_fault E of
        Some (partial, e) \<Rightarrow>
          (Inl (ReleaseScriptError (write_failed_msg destination_path e)), fs)
      | None \<Rightarrow>
          (case replace_fault E of
             Some e \<Rightarrow> (Inl (ReleaseScriptError (write_failed_msg destination_path e)), fs)
           | None \<Rightarrow>
               if fs destination_path = Some Folder
               then (Inl (ReleaseScriptError (write_failed_msg destination_path ''Is a directory'')), fs)
               else (Inr (), (fs(destination_path \<mapsto> Text (xml_serialize E tree)))(tmp := None))))"
proof -
  from mkstemp_Inr[OF assms] have fresh: "fs tmp = None" and fs1: "fs1 = fs(tmp \<mapsto> Text [])"
    by auto
  have idem: "fs(tmp := None) = fs"
    using fresh by (simp add: fun_upd_idem)
  show ?thesis
  proof (cases "write_fault E")
    case (Some pe)
    then show ?thesis
      using assms fs1 idem
      by (cases pe) (simp add: write_plugin_xml_def Let_def tree_write_def unlink_def)
  next
    case None
    note wf = this
    show ?thesis
    proof (cases "replace_fault E")
      case (Some e)
      then show ?thesis
        using assms fs1 idem wf
        by (simp add: write_plugin_xml_def Let_def tree_write_def path_replace_def unlink_def)
    next
      case None
      show ?thesis
      proof (cases "tmp = destination_path")
        case True
        then show ?thesis
          using assms fs1 idem wf None fresh
          by (simp add: write_plugin_xml_def Let_def tree_write_def path_replace_def unlink_def)
      next
        case False
        then have "(fs(tmp \<mapsto> Text (xml_serialize E tree),
                      destination_path \<mapsto> Text (xml_serialize E tree)))(tmp := None)
                   = (fs(destination_path \<mapsto> Text (xml_serialize E tree)))(tmp := None)"
          by (auto simp: fun_eq_iff)
        with False show ?thesis
          using assms fs1 idem wf None fresh
          by (simp add: write_plugin_xml_def Let_def tree_write_def path_replace_def unlink_def)
      qed
    qed
  qed
qed

text \<open>
  C1.  Once \<open>mkstemp\<close> has created the temporary file, that file stands in the
  directory of the destination and did not exist before.  If the serialisation or
  the rename fails, \<open>_write_plugin_xml\<close> raises the script's own error and the
  repository is exactly as it was before the call: the destination has its old
  content and the temporary file is gone.  Otherwise the call succeeds, the
  destination holds the serialised document, and the temporary file is gone.
\<close>

theorem write_plugin_xml_atomic:
  assumes "mkstemp E (path_parent destination_path) ''plugins.xml.'' ''.tmp'' fs = Inr (tmp, fs1)"
  shows "path_parent tmp = path_parent destination_path \<and> fs tmp = None
     \<and> (write_fault E \<noteq> None \<or> replace_fault E \<noteq> None \<or> fs destination_path = Some Folder
          \<longrightarrow> (\<exists>e. write_plugin_xml E tree destination_path fs
                      = (Inl (ReleaseScriptError (write_failed_msg destination_path e)), fs)))
     \<and> (write_fault E = None \<and> replace_fault E = None \<and> fs destination_path \<noteq> Some Folder
          \<longrightarrow> write_plugin_xml E tree destination_path fs
                = (Inr (), (fs(destination_path \<mapsto> Text (xml_serialize E tree)))(tmp := None)))"
proof -
  from mkstemp_Inr[OF assms] have par: "path_parent tmp = path_parent destination_path"
    and fresh: "fs tmp = None"
    by auto
  note eq = write_plugin_xml_eq[OF assms, of tree]
  have AB: "write_fault E \<noteq> None \<or> replace_fault E \<noteq> None \<or> fs destination_path = Some Folder
          \<longrightarrow> (\<exists>e. write_plugin_xml E tree destination_path fs
                      = (Inl (ReleaseScriptError (write_failed_msg destination_path e)), fs))"
    unfolding eq by (auto split: option.splits)
  have C: "write_fault E = None \<and> replace_fault E = None \<and> fs destination_path \<noteq> Some Folder
          \<longrightarrow> write_plugin_xml E tree destination_path fs
                = (Inr (), (fs(destination_path \<mapsto> Text (xml_serialize E tree)))(tmp := None))"
    unfolding eq by simp
  from par fresh AB C show ?thesis by blast
qed

lemma mkstemp_Inl:
  "mkstemp E (path_parent destination_path) ''plugins.xml.'' ''.tmp'' fs = Inl e
   \<Longrightarrow> write_plugin_xml E tree destination_path fs = (Inl (OSError e), fs)"
  by (simp add: write_plugin_xml_def Let_def)

lemma demo_mkstemp:
  "mkstemp full_disk_env (path_parent manifest_path) ''plugins.xml.'' ''.tmp'' (repo demo_world)
   = Inr (PurePath ''/'' [''srv'', ''plugins'', ''plugins.xml.a1b2c3d4.tmp''],
          (repo demo_world)(PurePath ''/'' [''srv'', ''plugins'', ''plugins.xml.a1b2c3d4.tmp''] \<mapsto> Text []))"
  by (simp add: mkstemp_def full_disk_env_def demo_env_def demo_world_def manifest_path_def
      path_parent_def)

theorem write_plugin_xml_atomic_witness:
  "mkstemp full_disk_env (path_parent manifest_path) ''plugins.xml.'' ''.tmp'' (repo demo_world)
   = Inr (PurePath ''/'' [''srv'', ''plugins'', ''plugins.xml.a1b2c3d4.tmp''],
          (repo demo_world)(PurePath ''/'' [''srv'', ''plugins'', ''plugins.xml.a1b2c3d4.tmp''] \<mapsto> Text []))
   \<and> write_fault full_disk_env \<noteq> None
   \<and> (\<exists>e. write_plugin_xml full_disk_env two_manifest manifest_path (repo demo_world)
           = (Inl (ReleaseScriptError (write_failed_msg manifest_path e)), repo demo_world))
   \<and> repo demo_world manifest_path = Some (Text ''<plugins />'')"
proof -
  have wf: "write_fault full_disk_env \<noteq> None"
    by (simp add: full_disk_env_def)
  have old: "repo demo_world manifest_path = Some (Text ''<plugins />'')"
    by (simp add: demo_world_def manifest_path_def)
  from write_plugin_xml_atomic [OF demo_mkstemp, of two_manifest] wf
  have "\<exists>e. write_plugin_xml full_disk_env two_manifest manifest_path (repo demo_world)
           = (Inl (ReleaseScriptError (write_failed_msg manifest_path e)), repo demo_world)"
    by blast
  with demo_mkstemp wf old show ?thesis by blast
qed

section \<open>Packaged directories\<close>

lemma add_walked_files_eq:
  "add_walked_files zipf root files pzd exts =
     zipf @ map (\<lambda>(file, c). (as_posix (path_join (Path pzd) (path_join (Path root) (Path file))), c))
              (filter (\<lambda>(file, c). \<not> list_ex (\<lambda>ext. endswith file ext) exts) files)"
  by (induction files arbitrary: zipf) (auto simp: zip_write_def)

lemma add_walk_eq:
  "add_walk zipf ws pzd excl exts =
     zipf @ map (walked_entry pzd) (filter (is_packaged excl exts) (files_of_walk ws))"
proof (induction ws arbitrary: zipf)
  case Nil
  then show ?case by (simp add: files_of_walk_def)
next
  case (Cons rf ws)
  obtain root files where rf: "rf = (root, files)" by (cases rf)
  have fow: "files_of_walk ((root, files) # ws) = map (Pair root) files @ files_of_walk ws"
    by (simp add: files_of_walk_def)
  show ?case
  proof (cases "list_ex (\<lambda>excluded. str_contains root excluded) excl")
    case True
    then have "filter (is_packaged excl exts) (map (Pair root) files) = []"
      by (auto simp: is_packaged_def filter_empty_conv)
    with True show ?thesis
      by (simp add: rf fow Cons.IH)
  next
    case False
    then have "map (walked_entry pzd)
                 (filter (is_packaged excl exts) (map (Pair root) files))
             = map (\<lambda>(file, c). (as_posix (path_join (Path pzd) (path_join (Path root) (Path file))), c))
                 (filter (\<lambda>(file, c). \<not> list_ex (\<lambda>ext. endswith file ext) exts) files)"
      by (induction files) (auto simp: is_packaged_def walked_entry_def)
    with False show ?thesis
      by (simp add: rf fow Cons.IH add_walked_files_eq)
  qed
qed

lemma cwd_lookup_warn [simp]: "cwd_lookup (warn m w) p = cwd_lookup w p"
  by (simp add: cwd_lookup_def warn_def)

lemma dir_walk_warn [simp]: "dir_walk (warn m w) d = dir_walk w d"
  by (simp add: dir_walk_def)

lemma walked_files_warn [simp]: "walked_files (warn m w) ds = walked_files w ds"
  by (simp add: walked_files_def)

lemma add_directories_eq:
  "fst (add_directories_to_zip zipf dirs pzd excl exts w) =
     zipf @ map (walked_entry pzd) (filter (is_packaged excl exts) (walked_files w dirs))"
proof (induction dirs arbitrary: zipf w)
  case Nil
  then show ?case by (simp add: walked_files_def)
next
  case (Cons d dirs)
  have wf: "walked_files w (d # dirs) = files_of_walk (dir_walk w d) @ walked_files w dirs"
    by (simp add: walked_files_def)
  show ?case
  proof (cases "cwd_lookup w (Path d)")
    case None
    then show ?thesis by (simp add: Cons.IH wf dir_walk_def files_of_walk_def)
  next
    case (Some n)
    then show ?thesis
      by (cases n) (simp_all add: Cons.IH wf dir_walk_def files_of_walk_def add_walk_eq)
  qed
qed

lemma startswith_append: "startswith s e \<Longrightarrow> startswith (s @ t) e"
  by (auto simp: startswith_def take_append) (metis append_eq_conv_conj append_take_drop_id length_take min.absorb2 nat_le_linear take_all)
lemma str_contains_Nil [simp]: "str_contains s []"
  by (cases s) (simp_all add: startswith_def)

lemma str_contains_append: "str_contains s e \<Longrightarrow> str_contains (s @ t) e"
proof (induction s)
  case Nil
  then show ?case by simp
next
  case (Cons c s)
  then show ?case
    using startswith_append[of "c # s" e t] by auto
qed

lemma os_path_join_extends: "\<exists>s. os_path_join a b = a @ s"
  by (simp add: os_path_join_def)

lemma walk_roots_extend:
  "\<forall>rf\<in>set (walk d es). \<exists>s. fst rf = d @ s"
  "\<forall>rf\<in>set (walk_subdirs d es). \<exists>s. fst rf = d @ s"
  "True"
proof (induction d es and d es and es rule: walk_walk_subdirs_walk_files.induct)
  case (4 dirpath n sub es)
  obtain t where t: "os_path_join dirpath n = dirpath @ t"
    using os_path_join_extends by blast
  from 4 t show ?case by auto
qed auto

lemma excluded_root_not_packaged:
  assumes "list_ex (\<lambda>excluded. str_contains d excluded) excl"
  shows "filter (is_packaged excl exts) (files_of_walk (walk d es)) = []"
proof -
  have "\<not> is_packaged excl exts rfc" if "rfc \<in> set (files_of_walk (walk d es))" for rfc
  proof -
    from that obtain root files fc where rf: "(root, files) \<in> set (walk d es)" "rfc = (root, fc)"
      by (auto simp: files_of_walk_def)
    with walk_roots_extend(1)[of d es] obtain s where "root = d @ s"
      by force
    with assms have "list_ex (\<lambda>excluded. str_contains root excluded) excl"
      by (auto simp: list_ex_iff intro: str_contains_append)
    with rf show ?thesis
      by (cases fc) (simp add: is_packaged_def)
  qed
  then show ?thesis by (simp add: filter_empty_conv)
qed

text \<open>
  C4.  The entries \<open>_add_directories_to_zip\<close> adds are those of the files met on the
  walks of the listed directories, in order, for which the path of the containing
  directory contains none of the excluded substrings and the name ends with none of
  the excluded extensions - those files and no others.  The walk of a directory whose
  path contains an excluded substring, that is its whole subtree, adds nothing.
\<close>

theorem add_directories_to_zip_entries:
  "fst (add_directories_to_zip zipf dirs plugin_zip_dir excl_dirs excl_extensions w)
     = zipf @ map (walked_entry plugin_zip_dir)
                (filter (is_packaged excl_dirs excl_extensions) (walked_files w dirs))
   \<and> (list_ex (\<lambda>excluded. str_contains dirpath excluded) excl_dirs
        \<longrightarrow> add_walk zipf (walk dirpath es) plugin_zip_dir excl_dirs excl_extensions = zipf)"
  by (simp add: add_directories_eq add_walk_eq excluded_root_not_packaged del: walk.simps)

lemma demo_walked:
  "walked_files demo_world [''modules''] =
     [(''modules'', ''a.py'', ''A''), (''modules'', ''a.pyc'', ''X''),
      (''modules/__pycache__'', ''a.txt'', ''Y''), (''modules/sub'', ''b.py'', ''B'')]"
  by (simp add: walked_files_def files_of_walk_def dir_walk_def cwd_lookup_def demo_world_def
      Path_def path_anchor_def path_str_def os_path_join_def endswith_def)

theorem add_directories_to_zip_entries_witness:
  "list_ex (\<lambda>excluded. str_contains ''modules/__pycache__'' excluded) [''__pycache__'']
   \<and> fst (add_directories_to_zip [] [''modules''] ''My_Plugin'' [''__pycache__''] [''.pyc''] demo_world)
       = [(''My_Plugin/modules/a.py'', ''A''), (''My_Plugin/modules/sub/b.py'', ''B'')]
   \<and> add_walk [] (walk ''modules/__pycache__'' [(''a.txt'', File ''Y'')]) ''My_Plugin''
        [''__pycache__''] [''.pyc''] = []"
proof -
  have h: "list_ex (\<lambda>excluded. str_contains ''modules/__pycache__'' excluded) [''__pycache__'']"
    by (simp add: startswith_def)
  have k: "map (walked_entry ''My_Plugin'')
             (filter (is_packaged [''__pycache__''] [''.pyc''])
                [(''modules'', ''a.py'', ''A''), (''modules'', ''a.pyc'', ''X''),
                 (''modules/__pycache__'', ''a.txt'', ''Y''), (''modules/sub'', ''b.py'', ''B'')])
           = [(''My_Plugin/modules/a.py'', ''A''), (''My_Plugin/modules/sub/b.py'', ''B'')]"
    by (simp add: is_packaged_def walked_entry_def startswith_def endswith_def as_posix_def
        path_str_def path_join_def Path_def path_anchor_def)
  from add_directories_to_zip_entries [of "[]" "[''modules'']" "''My_Plugin''" "[''__pycache__'']" "[''.pyc'']" demo_world
             "''modules/__pycache__''" "[(''a.txt'', File ''Y'')]"]
  show ?thesis
    using h by (simp only: demo_walked k append_Nil)
qed

section \<open>Packaged files\<close>

lemma file_entries_warn [simp]: "file_entries pzd cl (warn m w) f = file_entries pzd cl w f"
  by (simp add: file_entries_def)

lemma file_warnings_warn [simp]: "file_warnings (warn m w) f = file_warnings w f"
  by (simp add: file_warnings_def)

lemma warn_warnings: "warn m w\<lparr>warnings := warnings (warn m w) @ xs\<rparr> = w\<lparr>warnings := warnings w @ m # xs\<rparr>"
  by (simp add: warn_def)

lemma add_files_to_zip_eq:
  "add_files_to_zip zipf files pzd cl w =
     (zipf @ concat (map (file_entries pzd cl w) files),
      w\<lparr>warnings := warnings w @ concat (map (file_warnings w) files)\<rparr>)"
proof (induction files arbitrary: zipf w)
  case Nil
  then show ?case by simp
next
  case (Cons f files)
  show ?case
  proof (cases "f = ''metadata.txt''")
    case True
    then have "file_entries pzd cl w f
                 = [(as_posix (path_join (Path pzd) (Path ''metadata.txt'')), cl)]"
      and "file_warnings w f = []"
      by (simp_all add: file_entries_def file_warnings_def)
    with True show ?thesis
      by (simp add: Cons.IH)
  next
    case False
    show ?thesis
    proof (cases "cwd_lookup w (Path f)")
      case None
      with False have "file_entries pzd cl w f = []"
        and "file_warnings w f = [''File '' @ quoted (path_str (Path f)) @ '' not found, skipping.'']"
        by (simp_all add: file_entries_def file_warnings_def)
      with False None show ?thesis
        by (simp add: Cons.IH warn_warnings)
    next
      case (Some n)
      with False have "file_entries pzd cl w f
                         = [(as_posix (path_join (Path pzd) (Path f)), node_data n)]"
        and "file_warnings w f = []"
        by (simp_all add: file_entries_def file_warnings_def)
      with False Some show ?thesis
        by (simp add: Cons.IH zip_write_def node_data_def)
    qed
  qed
qed

lemma split_on_not_Nil [simp]: "split_on sep s \<noteq> []"
  by (induction s) (auto split: list.splits)

lemma str_join_split_on: "str_join [sep] (split_on sep s) = s"
proof (induction s)
  case Nil
  then show ?case by simp
next
  case (Cons c s)
  obtain r rs where r: "split_on sep s = r # rs"
    by (cases "split_on sep s") simp_all
  with Cons show ?case
    by (cases rs) auto
qed

lemma str_join_append:
  "xs \<noteq> [] \<Longrightarrow> ys \<noteq> [] \<Longrightarrow> str_join sep (xs @ ys) = str_join sep xs @ sep @ str_join sep ys"
proof (induction sep xs rule: str_join.induct)
  case (1 sep)
  then show ?case by simp
next
  case (2 sep x)
  then show ?case by (cases ys) simp_all
next
  case (3 sep x y ys')
  then show ?case by simp
qed

lemma plain_relative_Path:
  assumes "plain_relative s"
  shows "Path s = PurePath [] (split_on (CHR ''/'') s)"
proof -
  from assms have all: "\<forall>p\<in>set (split_on (CHR ''/'') s). p \<noteq> [] \<and> p \<noteq> ''.''"
    by (simp add: plain_relative_def list_all_iff)
  then have f: "filter (\<lambda>p. p \<noteq> [] \<and> p \<noteq> ''.'') (split_on (CHR ''/'') s) = split_on (CHR ''/'') s"
    by (simp add: filter_id_conv)
  have "takeWhile (\<lambda>c. c = CHR ''/'') s = []"
  proof (cases s)
    case Nil
    then show ?thesis by simp
  next
    case (Cons c cs)
    with all have "c \<noteq> CHR ''/''" by auto
    with Cons show ?thesis by simp
  qed
  with f show ?thesis by (simp add: Path_def path_anchor_def)
qed

lemma plain_arcname:
  assumes "plain_relative plugin_zip_dir" "plain_relative file_str"
  shows "as_posix (path_join (Path plugin_zip_dir) (Path file_str)) = plugin_zip_dir @ ''/'' @ file_str"
  using assms
  by (simp add: plain_relative_Path path_join_def as_posix_def path_str_def str_join_append
      str_join_split_on)

text \<open>
  C8.  \<open>_add_files_to_zip\<close> never fails and goes through the whole list.  For
  \<open>metadata.txt\<close> it writes the cleaned content it was given, under the package root,
  whatever stands on disk; for every other listed file that exists it writes the file
  under the package root joined with the listed path; for every listed file that
  does not exist it writes nothing and logs one warning.  For a plain relative package
  root and path the name of the entry is the root, a slash and the path.
\<close>

theorem add_files_to_zip_entries:
  "add_files_to_zip zipf files plugin_zip_dir clean_metadata_content w =
     (zipf @ concat (map (file_entries plugin_zip_dir clean_metadata_content w) files),
      w\<lparr>warnings := warnings w @ concat (map (file_warnings w) files)\<rparr>)
   \<and> (plain_relative plugin_zip_dir \<and> plain_relative file_str
        \<longrightarrow> as_posix (path_join (Path plugin_zip_dir) (Path file_str))
            = plugin_zip_dir @ ''/'' @ file_str)"
  by (simp add: add_files_to_zip_eq plain_arcname)


theorem add_files_to_zip_entries_witness:
  "plain_relative ''My_Plugin'' \<and> plain_relative ''main.py''
   \<and> add_files_to_zip [] [''metadata.txt'', ''missing.txt'', ''main.py''] ''My_Plugin''
         ''name=My Plugin'' demo_world
       = ([(''My_Plugin/metadata.txt'', ''name=My Plugin''),
           (''My_Plugin/main.py'', ''import modules'')],
          demo_world\<lparr>warnings := [''File '' @ quoted ''missing.txt'' @ '' not found, skipping.'']\<rparr>)"
proof -
  have p: "plain_relative ''My_Plugin''" "plain_relative ''main.py''"
    by (simp_all add: plain_relative_def)
  have e: "map (file_entries ''My_Plugin'' ''name=My Plugin'' demo_world)
             [''metadata.txt'', ''missing.txt'', ''main.py'']
           = [[(''My_Plugin/metadata.txt'', ''name=My Plugin'')], [],
              [(''My_Plugin/main.py'', ''import modules'')]]"
    by (simp add: file_entries_def cwd_lookup_def demo_world_def Path_def path_anchor_def
        node_data_def as_posix_def path_str_def path_join_def)
  have m: "map (file_warnings demo_world) [''metadata.txt'', ''missing.txt'', ''main.py'']
           = [[], [''File '' @ quoted ''missing.txt'' @ '' not found, skipping.''], []]"
    by (simp add: file_warnings_def cwd_lookup_def demo_world_def Path_def path_anchor_def
        path_str_def)
  have w: "warnings demo_world = []"
    by (simp add: demo_world_def)
  have eq: "add_files_to_zip [] [''metadata.txt'', ''missing.txt'', ''main.py''] ''My_Plugin''
              ''name=My Plugin'' demo_world
            = ([] @ concat (map (file_entries ''My_Plugin'' ''name=My Plugin'' demo_world)
                             [''metadata.txt'', ''missing.txt'', ''main.py'']),
               demo_world\<lparr>warnings := warnings demo_world
                  @ concat (map (file_warnings demo_world)
                             [''metadata.txt'', ''missing.txt'', ''main.py''])\<rparr>)"
    using add_files_to_zip_entries [of "[]" "[''metadata.txt'', ''missing.txt'', ''main.py'']"
        "''My_Plugin''" "''name=My Plugin''" demo_world "''main.py''"]
    by (rule conjunct1)
  show ?thesis
    unfolding eq e m w using p by simp
qed

end
